theory Spec2Isabelle
  imports Complex_Main
begin

section \<open>Data of app.js\<close>

text \<open>
  A face descriptor is the numeric vector the detector returns for a face. The page
  never looks inside it; only the matcher of the face library does.
\<close>

type_synonym descriptor = "real list"

datatype box = Box real real real real

text \<open>One element of the array that \<^verbatim>\<open>detectAllFaces(...).withFaceDescriptors()\<close> resolves to.\<close>

datatype detection = Detection (det_box: box) (det_descriptor: descriptor)

text \<open>An element of the global \<^verbatim>\<open>faceDescriptors\<close>: the object \<^verbatim>\<open>{ name, descriptor }\<close>.\<close>

record face =
  name :: string
  descriptor :: descriptor

datatype LabeledFaceDescriptors =
  LabeledFaceDescriptors (label: string) (descriptors: "descriptor list")

datatype FaceMatcher =
  FaceMatcher (labeledDescriptors: "LabeledFaceDescriptors list") (distanceThreshold: real)

text \<open>
  The result of a match: a label and the distance found. The distance is absent only
  when the matcher holds no descriptor at all, so that nothing was measured.
\<close>

datatype MatchResult = MatchResult (result_label: string) (distance: "real option")

text \<open>A media stream is known to the page by its tracks only.\<close>

datatype stream = MediaStream (getTracks: "nat list")

text \<open>What is painted on the canvas since it was last cleared.\<close>

datatype drawing =
  DrawDetection detection
  | DrawFaceLandmarks detection
  | DrawBox box MatchResult

text \<open>The children of the two panels the page rewrites.\<close>

datatype node =
  Heading string
  | Paragraph string
  | FaceBox string nat
  | ResultLine MatchResult

text \<open>
  The two per-frame cycles, \<^verbatim>\<open>detect\<close> and \<^verbatim>\<open>recognize\<close>. A cycle is either
  registered with \<^verbatim>\<open>requestAnimationFrame\<close> and waits to be called, or is suspended
  at its \<^verbatim>\<open>await\<close> of the detector.
\<close>

datatype loop = Detect | Recognize

datatype task = NextFrame loop | AwaitDetections loop

text \<open>
  The globals of app.js, the properties of the DOM elements it writes, the notices it
  has shown with \<^verbatim>\<open>alert\<close>, the tracks it has stopped and the cycles that are pending.
\<close>

record app_state =
  videoStream :: "stream option"
  faceDescriptors :: "face list"
  labeledFaceDescriptors :: "LabeledFaceDescriptors list"
  faceMatcher :: "FaceMatcher option"
  video_srcObject :: "stream option"
  videoSize :: "nat \<times> nat"
  canvasSize :: "nat \<times> nat"
  startCameraBtn_disabled :: bool
  stopCameraBtn_disabled :: bool
  captureFaceBtn_disabled :: bool
  recognizerBtn_disabled :: bool
  canvas :: "drawing list"
  faceDescriptorsDiv :: "node list"
  recognizedFacesDiv :: "node list"
  alerts :: "string list"
  stoppedTracks :: "nat list"
  tasks :: "task list"

section \<open>Stopping the camera\<close>

text \<open>
  \<^verbatim>\<open>stopCamera\<close>: everything happens under \<^verbatim>\<open>if (videoStream)\<close>; with no stream the
  function falls through.
\<close>

definition stopCamera :: "app_state \<Rightarrow> app_state" where
  "stopCamera s =
     (case videoStream s of
        None \<Rightarrow> s
      | Some st \<Rightarrow>
          s\<lparr> stoppedTracks := stoppedTracks s @ getTracks st,
             video_srcObject := None,
             videoStream := None,
             startCameraBtn_disabled := False,
             stopCameraBtn_disabled := True,
             captureFaceBtn_disabled := True,
             recognizerBtn_disabled := True,
             canvas := [] \<rparr>)"

section \<open>The gallery\<close>

text \<open>
  \<^verbatim>\<open>updateFaceDescriptorsDisplay\<close> rewrites the panel: the heading, then either the
  "none yet" paragraph or one box per stored face with its current position for the
  delete button.
\<close>

definition updateFaceDescriptorsDisplay :: "app_state \<Rightarrow> app_state" where
  "updateFaceDescriptorsDisplay s =
     s\<lparr> faceDescriptorsDiv :=
          Heading ''Stored Faces:'' #
          (if length (faceDescriptors s) = 0 then [Paragraph ''No faces stored yet.'']
           else map (\<lambda>(f, index). FaceBox (name f) index)
                  (zip (faceDescriptors s) [0 ..< length (faceDescriptors s)])) \<rparr>"

text \<open>
  \<^verbatim>\<open>captureFace\<close>. Its two inputs from outside are what \<^verbatim>\<open>prompt\<close> returned (\<open>None\<close>
  when the dialog was cancelled, the language's \<^verbatim>\<open>null\<close>) and the detections the
  detector resolved to. Before its \<^verbatim>\<open>await\<close> the function writes nothing, so the
  state it acts on is the one at resumption. \<^verbatim>\<open>!faceName\<close> holds of \<^verbatim>\<open>null\<close> and of
  the empty string, and of no other string.
\<close>

definition captureFace :: "string option \<Rightarrow> detection list \<Rightarrow> app_state \<Rightarrow> app_state" where
  "captureFace prompted detections s =
     (case prompted of
        None \<Rightarrow> s
      | Some faceName \<Rightarrow>
          if faceName = [] then s
          else if length detections = 0
          then s\<lparr> alerts := alerts s @ [''No faces detected!''] \<rparr>
          else
            let d = det_descriptor (hd detections);
                s1 = s\<lparr> faceDescriptors :=
                          faceDescriptors s @ [\<lparr> name = faceName, descriptor = d \<rparr>] \<rparr>;
                s2 = updateFaceDescriptorsDisplay s1
            in s2\<lparr> recognizerBtn_disabled := (length (faceDescriptors s2) = 0) \<rparr>)"

text \<open>
  \<^verbatim>\<open>Array.prototype.splice(index, 1)\<close> as the language defines it for an integer
  \<^verbatim>\<open>index\<close>: a negative start counts from the end and is clamped to 0, a start beyond
  the end is clamped to the length, and the number of elements removed is 1 clamped to
  what is left after the start. It never throws.
\<close>

definition splice1 :: "int \<Rightarrow> 'a list \<Rightarrow> 'a list" where
  "splice1 index xs =
     (let len = int (length xs);
          start = (if index < 0 then max (len + index) 0 else min index len);
          deleteCount = min (max 1 0) (len - start)
      in take (nat start) xs @ drop (nat (start + deleteCount)) xs)"

text \<open>\<^verbatim>\<open>window.deleteFace\<close>.\<close>

definition deleteFace :: "int \<Rightarrow> app_state \<Rightarrow> app_state" where
  "deleteFace index s =
     (let s1 = s\<lparr> faceDescriptors := splice1 index (faceDescriptors s) \<rparr>;
          s2 = updateFaceDescriptorsDisplay s1
      in s2\<lparr> recognizerBtn_disabled := (length (faceDescriptors s2) = 0) \<rparr>)"

section \<open>The matcher of the face library\<close>

text \<open>
  Modelled from the spec: \<^verbatim>\<open>faceapi.FaceMatcher\<close> and its distance are code of the
  face-api.js library, which app.js calls and which is not among the sources. The
  specification fixes the distance as Euclidean (L2) over the descriptor vector. The
  descriptors are taken over the reals; rounding is not modelled.
\<close>

definition euclideanDistance :: "descriptor \<Rightarrow> descriptor \<Rightarrow> real" where
  "euclideanDistance a b = sqrt (\<Sum>(x, y) \<leftarrow> zip a b. (x - y)\<^sup>2)"

text \<open>
  Modelled from the spec: the linear scan of \<^verbatim>\<open>findBestMatch\<close>. Every candidate is a
  label with the distance of one of its descriptors to the query; the scan keeps the
  smallest, and the first in gallery order among equals.
\<close>

definition candidates :: "FaceMatcher \<Rightarrow> descriptor \<Rightarrow> (string \<times> real) list" where
  "candidates m q =
     concat (map (\<lambda>l. map (\<lambda>d. (label l, euclideanDistance d q)) (descriptors l))
               (labeledDescriptors m))"

text \<open>
  Modelled from the spec: the tie-break of the scan, which is part of the library as
  well. A later candidate replaces the best one only when it is strictly nearer.
\<close>

fun closest :: "string \<times> real \<Rightarrow> (string \<times> real) list \<Rightarrow> string \<times> real" where
  "closest best [] = best"
| "closest best (c # cs) = closest (if snd c < snd best then c else best) cs"

text \<open>
  Modelled from the spec: \<^verbatim>\<open>findBestMatch\<close> returns the label with the minimum
  distance if that minimum is at most the threshold, and the label "unknown" otherwise;
  on a matcher without descriptors it returns "unknown".
\<close>

definition findBestMatch :: "FaceMatcher \<Rightarrow> descriptor \<Rightarrow> MatchResult" where
  "findBestMatch m q =
     (case candidates m q of
        [] \<Rightarrow> MatchResult ''unknown'' None
      | c # cs \<Rightarrow>
          (let best = closest c cs
           in if snd best \<le> distanceThreshold m
              then MatchResult (fst best) (Some (snd best))
              else MatchResult ''unknown'' (Some (snd best))))"

section \<open>The per-frame cycles\<close>

text \<open>
  The part of \<^verbatim>\<open>detect\<close> and of \<^verbatim>\<open>recognize\<close> before the \<^verbatim>\<open>await\<close>: the liveness
  check \<^verbatim>\<open>if (!videoStream) return\<close>, then the detector is started and the cycle
  is suspended.
\<close>

definition cycle_start :: "loop \<Rightarrow> app_state \<Rightarrow> app_state" where
  "cycle_start l s =
     (if videoStream s = None then s
      else s\<lparr> tasks := tasks s @ [AwaitDetections l] \<rparr>)"

text \<open>
  The rest of \<^verbatim>\<open>detect\<close>, run when the detector has resolved; \<open>resized\<close> is what
  \<^verbatim>\<open>resizeResults\<close> returned. It does not look at the stream again.
\<close>

definition detect_resume :: "detection list \<Rightarrow> app_state \<Rightarrow> app_state" where
  "detect_resume resized s =
     s\<lparr> canvas := map DrawDetection resized @ map DrawFaceLandmarks resized,
        tasks := tasks s @ [NextFrame Detect] \<rparr>"

text \<open>
  The rest of \<^verbatim>\<open>recognize\<close>. The canvas is cleared first; with no matcher the call
  of \<^verbatim>\<open>findBestMatch\<close> on \<^verbatim>\<open>null\<close> throws as soon as there is a detection to
  match, and the cycle ends there.
\<close>

definition recognize_resume :: "detection list \<Rightarrow> app_state \<Rightarrow> app_state" where
  "recognize_resume resized s =
     (if faceMatcher s = None \<and> resized \<noteq> [] then s\<lparr> canvas := [] \<rparr>
      else
        let results = map (\<lambda>d. findBestMatch (the (faceMatcher s)) (det_descriptor d)) resized
        in s\<lparr> canvas := map (\<lambda>(d, r). DrawBox (det_box d) r) (zip resized results),
              recognizedFacesDiv :=
                Heading ''Recognition Results:'' #
                (if length results > 0 then map ResultLine results
                 else [Paragraph ''No faces detected.'']),
              tasks := tasks s @ [NextFrame Recognize] \<rparr>)"

text \<open>
  One turn of the event loop on the pending cycle at position \<open>k\<close>: it leaves the
  pending list and runs, a registered callback from its start, a suspended cycle from
  its \<^verbatim>\<open>await\<close> with the detections it is handed. No particular order among the
  pending cycles is assumed.
\<close>

definition fire :: "nat \<Rightarrow> detection list \<Rightarrow> app_state \<Rightarrow> app_state" where
  "fire k dets s =
     (if k < length (tasks s) then
        (let s' = s\<lparr> tasks := take k (tasks s) @ drop (Suc k) (tasks s) \<rparr>
         in case tasks s ! k of
              NextFrame l \<Rightarrow> cycle_start l s'
            | AwaitDetections Detect \<Rightarrow> detect_resume dets s'
            | AwaitDetections Recognize \<Rightarrow> recognize_resume dets s')
      else s)"

text \<open>What is left to do for the pending cycles once the stream is gone.\<close>

fun weight :: "task \<Rightarrow> nat" where
  "weight (NextFrame l) = 1"
| "weight (AwaitDetections l) = 2"

definition pending_work :: "app_state \<Rightarrow> nat" where
  "pending_work s = sum_list (map weight (tasks s))"

section \<open>Starting the camera, detection and recognition\<close>

text \<open>\<^verbatim>\<open>faceapi.matchDimensions(canvas, displaySize)\<close> gives the canvas the size of the video.\<close>

definition matchDimensions :: "app_state \<Rightarrow> app_state" where
  "matchDimensions s = s\<lparr> canvasSize := videoSize s \<rparr>"

definition detectFaces :: "app_state \<Rightarrow> app_state" where
  "detectFaces s =
     (if videoStream s = None then s
      else cycle_start Detect (matchDimensions s))"

text \<open>
  \<^verbatim>\<open>startCamera\<close>, from the point where \<^verbatim>\<open>getUserMedia\<close> has settled: \<open>None\<close> when it
  rejected.
\<close>

definition startCamera :: "stream option \<Rightarrow> app_state \<Rightarrow> app_state" where
  "startCamera acquired s =
     (case acquired of
        None \<Rightarrow>
          s\<lparr> alerts := alerts s @
               [''Could not access the camera. Please ensure you have granted permissions.''] \<rparr>
      | Some st \<Rightarrow>
          detectFaces
            (s\<lparr> videoStream := Some st,
                video_srcObject := Some st,
                startCameraBtn_disabled := True,
                stopCameraBtn_disabled := False,
                captureFaceBtn_disabled := False \<rparr>))"

text \<open>
  \<^verbatim>\<open>recognizeFaces\<close>: the guard on the empty gallery, then the matcher is built from
  the gallery with the threshold 0.6 and the first \<^verbatim>\<open>recognize\<close> cycle is called.
\<close>

definition recognizeFaces :: "app_state \<Rightarrow> app_state" where
  "recognizeFaces s =
     (if length (faceDescriptors s) = 0
      then s\<lparr> alerts := alerts s @ [''No faces stored for recognition!''] \<rparr>
      else
        let lfd = map (\<lambda>f. LabeledFaceDescriptors (name f) [descriptor f]) (faceDescriptors s);
            s1 = s\<lparr> labeledFaceDescriptors := lfd,
                    faceMatcher := Some (FaceMatcher lfd (6 / 10)) \<rparr>
        in cycle_start Recognize (matchDimensions s1))"

text \<open>
  The mode of the live loop is not a variable of app.js; it is read off the state: no
  stream is idle, and a live stream recognizes as soon as a \<^verbatim>\<open>recognize\<close> cycle is
  pending.
\<close>

datatype LoopMode = Idle | Detecting | Recognizing

definition recognizing_task :: "task \<Rightarrow> bool" where
  "recognizing_task t = (t = NextFrame Recognize \<or> t = AwaitDetections Recognize)"

definition loopMode :: "app_state \<Rightarrow> LoopMode" where
  "loopMode s =
     (if videoStream s = None then Idle
      else if list_ex recognizing_task (tasks s) then Recognizing
      else Detecting)"

section \<open>What the page can receive\<close>

text \<open>
  The page is driven by the event loop: a turn of a pending cycle, or one of the user
  actions, the four buttons and the delete button of a stored face. The asynchronous
  handlers \<^verbatim>\<open>startCamera\<close> and \<^verbatim>\<open>captureFace\<close> appear at the point where their
  \<^verbatim>\<open>await\<close> has settled, with what it settled to.
\<close>

datatype event =
  Turn nat "detection list"
  | StartCamera "stream option"
  | StopCamera
  | CaptureFace "string option" "detection list"
  | DeleteFace int
  | RecognizeFaces

text \<open>One event; \<open>None\<close> when a turn names a cycle that is not pending.\<close>

fun dispatch :: "event \<Rightarrow> app_state \<Rightarrow> app_state option" where
  "dispatch (Turn k dets) s = (if k < length (tasks s) then Some (fire k dets s) else None)"
| "dispatch (StartCamera acquired) s = Some (startCamera acquired s)"
| "dispatch StopCamera s = Some (stopCamera s)"
| "dispatch (CaptureFace prompted detections) s = Some (captureFace prompted detections s)"
| "dispatch (DeleteFace index) s = Some (deleteFace index s)"
| "dispatch RecognizeFaces s = Some (recognizeFaces s)"

fun run :: "event list \<Rightarrow> app_state \<Rightarrow> app_state option" where
  "run [] s = Some s"
| "run (e # es) s = (case dispatch e s of None \<Rightarrow> None | Some s' \<Rightarrow> run es s')"

text \<open>The one event that brings a stream back: a start of the camera that succeeds.\<close>

fun restarts :: "event \<Rightarrow> bool" where
  "restarts (StartCamera (Some st)) = True"
| "restarts e = False"

fun is_turn :: "event \<Rightarrow> bool" where
  "is_turn (Turn k dets) = True"
| "is_turn e = False"

section \<open>Example data\<close>

definition alice :: face where
  "alice = \<lparr> name = ''Alice'', descriptor = [0, 0] \<rparr>"

definition idle_state :: app_state where
  "idle_state =
     \<lparr> videoStream = None, faceDescriptors = [alice], labeledFaceDescriptors = [],
       faceMatcher = None, video_srcObject = None, videoSize = (640, 480),
       canvasSize = (640, 480), startCameraBtn_disabled = False,
       stopCameraBtn_disabled = True, captureFaceBtn_disabled = True,
       recognizerBtn_disabled = False,
       canvas = [DrawDetection (Detection (Box 1 2 3 4) [0, 0])],
       faceDescriptorsDiv = [], recognizedFacesDiv = [], alerts = [],
       stoppedTracks = [], tasks = [] \<rparr>"

definition empty_live_state :: app_state where
  "empty_live_state =
     \<lparr> videoStream = Some (MediaStream [0]), faceDescriptors = [], labeledFaceDescriptors = [],
       faceMatcher = None, video_srcObject = Some (MediaStream [0]), videoSize = (640, 480),
       canvasSize = (640, 480), startCameraBtn_disabled = True,
       stopCameraBtn_disabled = False, captureFaceBtn_disabled = False,
       recognizerBtn_disabled = True, canvas = [],
       faceDescriptorsDiv = [], recognizedFacesDiv = [], alerts = [],
       stoppedTracks = [], tasks = [AwaitDetections Detect] \<rparr>"

definition faceA :: face where
  "faceA = \<lparr> name = ''A'', descriptor = [1, 0] \<rparr>"

definition faceB :: face where
  "faceB = \<lparr> name = ''B'', descriptor = [0, 1] \<rparr>"

definition faceC :: face where
  "faceC = \<lparr> name = ''C'', descriptor = [1, 1] \<rparr>"

text \<open>A live page with three stored faces, a suspended recognize cycle and a registered detect cycle.\<close>

definition abc_state :: app_state where
  "abc_state =
     \<lparr> videoStream = Some (MediaStream [0]), faceDescriptors = [faceA, faceB, faceC],
       labeledFaceDescriptors = [], faceMatcher = None,
       video_srcObject = Some (MediaStream [0]), videoSize = (640, 480),
       canvasSize = (640, 480), startCameraBtn_disabled = True,
       stopCameraBtn_disabled = False, captureFaceBtn_disabled = False,
       recognizerBtn_disabled = False, canvas = [],
       faceDescriptorsDiv = [], recognizedFacesDiv = [], alerts = [],
       stoppedTracks = [], tasks = [AwaitDetections Recognize, NextFrame Detect] \<rparr>"

definition one_face :: "detection list" where
  "one_face = [Detection (Box 1 2 3 4) [0, 0]]"

text \<open>
  A live page with one stored face and the detect cycle registered, before and after
  the recognize button is pressed.
\<close>

definition live_state :: app_state where
  "live_state =
     \<lparr> videoStream = Some (MediaStream [0]), faceDescriptors = [alice],
       labeledFaceDescriptors = [], faceMatcher = None,
       video_srcObject = Some (MediaStream [0]), videoSize = (640, 480),
       canvasSize = (640, 480), startCameraBtn_disabled = True,
       stopCameraBtn_disabled = False, captureFaceBtn_disabled = False,
       recognizerBtn_disabled = False, canvas = [],
       faceDescriptorsDiv = [], recognizedFacesDiv = [], alerts = [],
       stoppedTracks = [], tasks = [NextFrame Detect] \<rparr>"

definition recognizing_state :: app_state where
  "recognizing_state = recognizeFaces live_state"

text \<open>That page after the stop button, and what may follow without a new start of the camera.\<close>

definition stopped_state :: app_state where
  "stopped_state = stopCamera recognizing_state"

definition after_stop :: "event list" where
  "after_stop =
     [Turn 1 one_face, RecognizeFaces, Turn 0 [], StartCamera None, DeleteFace 0, Turn 0 []]"

section \<open>The matcher returns the nearest label under the threshold\<close>

lemma closest_in: "closest b cs \<in> set (b # cs)"
  by (induction cs arbitrary: b) auto

lemma closest_le: "c \<in> set (b # cs) \<Longrightarrow> snd (closest b cs) \<le> snd c"
proof (induction cs arbitrary: b c)
  case Nil
  then show ?case by simp
next
  case (Cons x cs)
  let ?b' = "if snd x < snd b then x else b"
  have keep: "snd (closest ?b' cs) \<le> snd ?b'"
    using Cons.IH [of ?b' ?b'] by simp
  show ?case
  proof (cases "c \<in> set cs")
    case True
    then show ?thesis using Cons.IH [of c ?b'] by simp
  next
    case False
    with Cons.prems have "c = b \<or> c = x" by auto
    then show ?thesis using keep by (auto split: if_splits)
  qed
qed

lemma candidates_gallery:
  "candidates (FaceMatcher (map (\<lambda>f. LabeledFaceDescriptors (name f) [descriptor f]) g) t) q =
     map (\<lambda>f. (name f, euclideanDistance (descriptor f) q)) g"
  by (induction g) (simp_all add: candidates_def)

lemma faceMatcher_recognizeFaces:
  "faceDescriptors s \<noteq> [] \<Longrightarrow>
     faceMatcher (recognizeFaces s) =
       Some (FaceMatcher
               (map (\<lambda>f. LabeledFaceDescriptors (name f) [descriptor f]) (faceDescriptors s))
               (6 / 10))"
  by (simp add: recognizeFaces_def cycle_start_def matchDimensions_def Let_def)

lemma findBestMatch_gallery:
  assumes "g \<noteq> []"
  shows "\<exists>f \<in> set g.
           (\<forall>f' \<in> set g. euclideanDistance (descriptor f) q \<le> euclideanDistance (descriptor f') q)
           \<and> findBestMatch
                (FaceMatcher (map (\<lambda>f. LabeledFaceDescriptors (name f) [descriptor f]) g) t) q =
               (if euclideanDistance (descriptor f) q \<le> t
                then MatchResult (name f) (Some (euclideanDistance (descriptor f) q))
                else MatchResult ''unknown'' (Some (euclideanDistance (descriptor f) q)))"
proof -
  let ?h = "\<lambda>f. (name f, euclideanDistance (descriptor f) q)"
  let ?m = "FaceMatcher (map (\<lambda>f. LabeledFaceDescriptors (name f) [descriptor f]) g) t"
  from assms obtain f0 fs where g: "g = f0 # fs" by (cases g) auto
  let ?best = "closest (?h f0) (map ?h fs)"
  have cand: "candidates ?m q = ?h f0 # map ?h fs"
    using candidates_gallery [of "f0 # fs" t q] by (simp add: g)
  have "?best \<in> set (?h f0 # map ?h fs)" by (rule closest_in)
  then have "?best \<in> ?h ` set g" by (simp add: g)
  then obtain f where f: "f \<in> set g" and best: "?best = ?h f" by auto
  have least: "snd ?best \<le> snd (?h f')" if "f' \<in> set g" for f'
  proof (rule closest_le)
    from that show "?h f' \<in> set (?h f0 # map ?h fs)" by (auto simp add: g)
  qed
  have res: "findBestMatch ?m q =
               (if euclideanDistance (descriptor f) q \<le> t
                then MatchResult (name f) (Some (euclideanDistance (descriptor f) q))
                else MatchResult ''unknown'' (Some (euclideanDistance (descriptor f) q)))"
    by (simp add: findBestMatch_def cand best del: closest.simps)
  from f least best res show ?thesis by auto
qed

lemma sqrt_4_25: "sqrt (4 / 25) = 2 / 5"
  by (rule real_sqrt_unique) (simp_all add: power2_eq_square)

lemma sqrt_16_25: "sqrt (16 / 25) = 4 / 5"
  by (rule real_sqrt_unique) (simp_all add: power2_eq_square)

text \<open>
  Claim C1. On a non-empty gallery \<^verbatim>\<open>recognizeFaces\<close> builds a matcher with the
  threshold 0.6, and for every query that matcher answers with a gallery entry \<open>f\<close>
  whose Euclidean distance to the query is the least in the gallery: its name when that
  distance is at most 0.6, the label "unknown" when it is more; the distance reported is
  that least distance in both cases.
\<close>

theorem findBestMatch_nearest:
  assumes "faceDescriptors s \<noteq> []"
  shows "\<exists>m f. faceMatcher (recognizeFaces s) = Some m
           \<and> f \<in> set (faceDescriptors s)
           \<and> list_all (\<lambda>f'. euclideanDistance (descriptor f) q \<le> euclideanDistance (descriptor f') q)
                (faceDescriptors s)
           \<and> findBestMatch m q =
               (if euclideanDistance (descriptor f) q \<le> 6 / 10
                then MatchResult (name f) (Some (euclideanDistance (descriptor f) q))
                else MatchResult ''unknown'' (Some (euclideanDistance (descriptor f) q)))"
  using faceMatcher_recognizeFaces [OF assms]
    findBestMatch_gallery [OF assms, of q "6 / 10"]
  unfolding list_all_iff by blast

theorem findBestMatch_nearest_witness:
  "faceDescriptors idle_state \<noteq> []
   \<and> findBestMatch (the (faceMatcher (recognizeFaces idle_state))) [2 / 5, 0] =
       MatchResult ''Alice'' (Some (2 / 5))
   \<and> findBestMatch (the (faceMatcher (recognizeFaces idle_state))) [4 / 5, 0] =
       MatchResult ''unknown'' (Some (4 / 5))"
  using findBestMatch_nearest [of idle_state "[2 / 5, 0]"]
    findBestMatch_nearest [of idle_state "[4 / 5, 0]"]
  by (auto simp add: idle_state_def alice_def euclideanDistance_def power2_eq_square
        sqrt_4_25 sqrt_16_25 split: if_splits)

section \<open>Recognition does not start on an empty gallery\<close>

text \<open>
  Claim C2. With an empty gallery \<^verbatim>\<open>recognizeFaces\<close> shows the notice and does nothing
  else: the state is the old one with the notice added, so the mode of the loop, the
  matcher, the labelled descriptors and the pending cycles are what they were.
\<close>

theorem recognizeFaces_empty_gallery:
  "faceDescriptors s = [] \<Longrightarrow>
     recognizeFaces s = s\<lparr> alerts := alerts s @ [''No faces stored for recognition!''] \<rparr>
     \<and> loopMode (recognizeFaces s) = loopMode s
     \<and> faceMatcher (recognizeFaces s) = faceMatcher s
     \<and> labeledFaceDescriptors (recognizeFaces s) = labeledFaceDescriptors s
     \<and> tasks (recognizeFaces s) = tasks s"
  by (simp add: recognizeFaces_def loopMode_def)

theorem recognizeFaces_empty_gallery_witness:
  "faceDescriptors empty_live_state = []
   \<and> alerts (recognizeFaces empty_live_state) = [''No faces stored for recognition!'']
   \<and> loopMode (recognizeFaces empty_live_state) = Detecting
   \<and> faceMatcher (recognizeFaces empty_live_state) = None
   \<and> tasks (recognizeFaces empty_live_state) = [AwaitDetections Detect]"
  using recognizeFaces_empty_gallery [of empty_live_state]
  by (simp add: empty_live_state_def loopMode_def recognizing_task_def)

section \<open>Capturing a face\<close>

text \<open>
  Claim C3. When the detector finds no face, \<^verbatim>\<open>captureFace\<close> leaves the gallery as it
  was, whatever the prompt returned; and when a label was entered, the state is the old
  one with the notice "No faces detected!" added, nothing else.
\<close>

theorem captureFace_no_detections:
  "faceDescriptors (captureFace prompted [] s) = faceDescriptors s
   \<and> (faceName \<noteq> [] \<longrightarrow>
        captureFace (Some faceName) [] s = s\<lparr> alerts := alerts s @ [''No faces detected!''] \<rparr>)"
  by (simp add: captureFace_def split: option.split)

theorem captureFace_no_detections_witness:
  "''Bob'' \<noteq> []
   \<and> faceDescriptors (captureFace (Some ''Bob'') [] abc_state) = [faceA, faceB, faceC]
   \<and> alerts (captureFace (Some ''Bob'') [] abc_state) = [''No faces detected!'']"
  using captureFace_no_detections [of "Some ''Bob''" abc_state "''Bob''"]
  by (simp add: abc_state_def)

text \<open>
  Claim C4. With a non-empty label and at least one detection, \<^verbatim>\<open>captureFace\<close> puts
  one entry, the label with the descriptor of the first detection, at the end of the
  gallery: the gallery is one longer, every old entry keeps its position, and on an
  empty gallery the new entry is at index 0 of a gallery of size 1.
\<close>

theorem captureFace_appends:
  "faceName \<noteq> [] \<Longrightarrow> detections \<noteq> [] \<Longrightarrow>
     faceDescriptors (captureFace (Some faceName) detections s) =
       faceDescriptors s @ [\<lparr> name = faceName, descriptor = det_descriptor (hd detections) \<rparr>]
     \<and> length (faceDescriptors (captureFace (Some faceName) detections s)) =
         Suc (length (faceDescriptors s))
     \<and> (\<forall>i < length (faceDescriptors s).
           faceDescriptors (captureFace (Some faceName) detections s) ! i = faceDescriptors s ! i)
     \<and> (faceDescriptors s = [] \<longrightarrow>
           faceDescriptors (captureFace (Some faceName) detections s) ! 0 =
              \<lparr> name = faceName, descriptor = det_descriptor (hd detections) \<rparr>)"
  by (simp add: captureFace_def updateFaceDescriptorsDisplay_def Let_def nth_append)

theorem captureFace_appends_witness:
  "''Bob'' \<noteq> [] \<and> one_face \<noteq> [] \<and> faceDescriptors empty_live_state = []
   \<and> faceDescriptors (captureFace (Some ''Bob'') one_face empty_live_state) =
        [\<lparr> name = ''Bob'', descriptor = [0, 0] \<rparr>]
   \<and> length (faceDescriptors (captureFace (Some ''Bob'') one_face empty_live_state)) = 1
   \<and> faceDescriptors (captureFace (Some ''Bob'') one_face empty_live_state) ! 0 =
        \<lparr> name = ''Bob'', descriptor = [0, 0] \<rparr>"
  using captureFace_appends [of "''Bob''" one_face empty_live_state]
  by (simp add: empty_live_state_def one_face_def)

section \<open>Deleting a face\<close>

lemma splice1_in_bounds:
  "0 \<le> i \<Longrightarrow> i < int (length xs) \<Longrightarrow> splice1 i xs = take (nat i) xs @ drop (Suc (nat i)) xs"
  by (simp add: splice1_def Let_def min_def max_def nat_add_distrib)

lemma splice1_beyond: "int (length xs) \<le> i \<Longrightarrow> splice1 i xs = xs"
  by (simp add: splice1_def Let_def min_def max_def)

lemma splice1_negative:
  "i < 0 \<Longrightarrow> splice1 i xs =
     (let k = nat (int (length xs) + i) in take k xs @ drop (Suc k) xs)"
  by (auto simp add: splice1_def Let_def min_def max_def nat_add_distrib)

lemma faceDescriptors_deleteFace:
  "faceDescriptors (deleteFace i s) = splice1 i (faceDescriptors s)"
  by (simp add: deleteFace_def updateFaceDescriptorsDisplay_def Let_def)

lemma alerts_deleteFace: "alerts (deleteFace i s) = alerts s"
  by (simp add: deleteFace_def updateFaceDescriptorsDisplay_def Let_def)

text \<open>
  Claim C5, as stated, fails outside the bounds. On the gallery [A, B, C] the index -1
  is not a position, and \<^verbatim>\<open>deleteFace\<close> removes the last entry; the index 5 is not a
  position either, and \<^verbatim>\<open>deleteFace\<close> returns with the gallery as it was. Neither
  call reports anything.
\<close>

theorem deleteFace_out_of_range_counterexample:
  "faceDescriptors (deleteFace (- 1) abc_state) = [faceA, faceB]
   \<and> alerts (deleteFace (- 1) abc_state) = alerts abc_state
   \<and> faceDescriptors (deleteFace 5 abc_state) = [faceA, faceB, faceC]
   \<and> alerts (deleteFace 5 abc_state) = alerts abc_state"
  by (simp add: faceDescriptors_deleteFace alerts_deleteFace splice1_def abc_state_def)

text \<open>
  Claim C5, amended. An index within the bounds removes exactly the entry at that
  position and the later entries move down by one. An index at or beyond the size
  leaves the gallery as it is. A negative index counts from the end of the gallery
  (and from the first entry when it reaches further back than the size). No call of
  \<^verbatim>\<open>deleteFace\<close> reports an error.
\<close>

theorem deleteFace_gallery:
  "(0 \<le> i \<and> i < int (length (faceDescriptors s)) \<longrightarrow>
      faceDescriptors (deleteFace i s) =
        take (nat i) (faceDescriptors s) @ drop (Suc (nat i)) (faceDescriptors s))
   \<and> (int (length (faceDescriptors s)) \<le> i \<longrightarrow>
      faceDescriptors (deleteFace i s) = faceDescriptors s)
   \<and> (i < 0 \<longrightarrow>
      faceDescriptors (deleteFace i s) =
        (let k = nat (int (length (faceDescriptors s)) + i)
         in take k (faceDescriptors s) @ drop (Suc k) (faceDescriptors s)))
   \<and> alerts (deleteFace i s) = alerts s"
  by (simp add: faceDescriptors_deleteFace alerts_deleteFace splice1_in_bounds
        splice1_beyond splice1_negative)

theorem deleteFace_gallery_witness:
  "(0::int) \<le> 0 \<and> (0::int) < int (length (faceDescriptors abc_state))
   \<and> faceDescriptors (deleteFace 0 abc_state) = [faceB, faceC]"
  using deleteFace_gallery [of 0 abc_state]
  by (simp add: abc_state_def)

section \<open>Labels\<close>

text \<open>
  Claim C6, as stated, fails on a label of whitespace: \<^verbatim>\<open>!faceName\<close> is false of the
  string of one blank, so the capture goes on and the entry is stored under that label,
  with no notice.
\<close>

theorem captureFace_whitespace_counterexample:
  "faceDescriptors (captureFace (Some '' '') one_face abc_state) =
     [faceA, faceB, faceC, \<lparr> name = '' '', descriptor = [0, 0] \<rparr>]
   \<and> alerts (captureFace (Some '' '') one_face abc_state) = []"
  by (simp add: captureFace_def updateFaceDescriptorsDisplay_def abc_state_def one_face_def)

text \<open>
  Claim C6, amended. A cancelled prompt and the empty label end \<^verbatim>\<open>captureFace\<close>
  with the whole state as it was, the gallery included and no notice shown. A capture
  never stores an entry with an empty label: if no stored label is empty before, none
  is after.
\<close>

theorem captureFace_empty_label:
  "captureFace None detections s = s
   \<and> captureFace (Some []) detections s = s
   \<and> (list_all (\<lambda>f. name f \<noteq> []) (faceDescriptors s) \<longrightarrow>
        list_all (\<lambda>f. name f \<noteq> []) (faceDescriptors (captureFace prompted detections s)))"
  by (auto simp add: captureFace_def updateFaceDescriptorsDisplay_def Let_def
        split: option.splits if_splits)

theorem captureFace_empty_label_witness:
  "list_all (\<lambda>f. name f \<noteq> []) (faceDescriptors abc_state)
   \<and> captureFace (Some []) one_face abc_state = abc_state
   \<and> list_all (\<lambda>f. name f \<noteq> [])
        (faceDescriptors (captureFace (Some ''D'') one_face abc_state))"
  using captureFace_empty_label [of one_face abc_state "Some ''D''"]
  by (simp add: abc_state_def faceA_def faceB_def faceC_def)

section \<open>Stopping ends the per-frame cycles\<close>

lemma stopCamera_no_stream: "videoStream s = None \<Longrightarrow> stopCamera s = s"
  by (simp add: stopCamera_def)

lemma videoStream_stopCamera: "videoStream (stopCamera s) = None"
  by (simp add: stopCamera_def split: option.split)

lemma tasks_stopCamera: "tasks (stopCamera s) = tasks s"
  by (simp add: stopCamera_def split: option.split)

lemma cycle_start_no_stream: "videoStream s = None \<Longrightarrow> cycle_start l s = s"
  by (simp add: cycle_start_def)

lemma weight_remove:
  "k < length ts \<Longrightarrow>
     sum_list (map weight (take k ts @ drop (Suc k) ts)) + weight (ts ! k) =
       sum_list (map weight ts)"
proof -
  assume k: "k < length ts"
  then have "ts = take k ts @ ts ! k # drop (Suc k) ts"
    by (rule id_take_nth_drop)
  then have "sum_list (map weight ts) =
      sum_list (map weight (take k ts @ ts ! k # drop (Suc k) ts))"
    by simp
  then show ?thesis by simp
qed

text \<open>
  Without a stream every turn of the event loop uses up pending work: a registered
  cycle returns at its check, a suspended one is registered once more or throws.
\<close>

lemma fire_no_stream:
  assumes "videoStream s = None" and "k < length (tasks s)"
  shows "videoStream (fire k dets s) = None"
    and "pending_work (fire k dets s) < pending_work s"
proof -
  show "videoStream (fire k dets s) = None"
    using assms
    by (simp add: fire_def cycle_start_def detect_resume_def recognize_resume_def Let_def
          split: task.split loop.split)
  let ?rest = "sum_list (map weight (take k (tasks s) @ drop (Suc k) (tasks s)))"
  have "pending_work (fire k dets s) < ?rest + weight (tasks s ! k)"
    using assms
    by (cases "tasks s ! k")
       (auto simp add: fire_def cycle_start_def detect_resume_def recognize_resume_def Let_def
          pending_work_def split: loop.split)
  then show "pending_work (fire k dets s) < pending_work s"
    using weight_remove [OF assms(2)] by (simp add: pending_work_def)
qed

lemma pending_work_bound: "pending_work s \<le> 2 * length (tasks s)"
proof -
  have "sum_list (map weight ts) \<le> 2 * length ts" for ts
  proof (induction ts)
    case Nil
    then show ?case by simp
  next
    case (Cons t ts)
    then show ?case by (cases t) simp_all
  qed
  then show ?thesis by (simp add: pending_work_def)
qed

text \<open>
  Without a stream no user action but a successful start of the camera brings one back,
  and none of them touches the pending cycles.
\<close>

lemma action_no_stream:
  assumes "videoStream s = None" and "\<not> restarts e" and "\<not> is_turn e"
    and "dispatch e s = Some s'"
  shows "videoStream s' = None \<and> tasks s' = tasks s"
proof (cases e)
  case (Turn k dets)
  with assms(3) show ?thesis by simp
next
  case (StartCamera acquired)
  with assms(2) have "acquired = None" by (cases acquired) simp_all
  with StartCamera assms(1,4) show ?thesis by (auto simp add: startCamera_def)
next
  case StopCamera
  with assms(1,4) show ?thesis by (auto simp add: stopCamera_no_stream)
next
  case (CaptureFace prompted detections)
  with assms(1,4) show ?thesis
    by (auto simp add: captureFace_def updateFaceDescriptorsDisplay_def Let_def
          split: option.splits)
next
  case (DeleteFace index)
  with assms(1,4) show ?thesis
    by (auto simp add: deleteFace_def updateFaceDescriptorsDisplay_def Let_def)
next
  case RecognizeFaces
  with assms(1,4) show ?thesis
    by (auto simp add: recognizeFaces_def cycle_start_def matchDimensions_def Let_def)
qed

lemma run_no_stream:
  "videoStream s = None \<Longrightarrow> \<not> list_ex restarts es \<Longrightarrow> run es s = Some s' \<Longrightarrow>
     videoStream s' = None \<and> pending_work s' + length (filter is_turn es) \<le> pending_work s"
proof (induction es arbitrary: s)
  case Nil
  then show ?case by simp
next
  case (Cons e es)
  from Cons.prems(3) obtain s1 where d: "dispatch e s = Some s1" and r: "run es s1 = Some s'"
    by (auto split: option.splits)
  from Cons.prems(2) have ne: "\<not> restarts e" and nes: "\<not> list_ex restarts es" by simp_all
  show ?case
  proof (cases "is_turn e")
    case True
    then obtain k dets where e: "e = Turn k dets" by (cases e) simp_all
    with d have k: "k < length (tasks s)" and s1: "s1 = fire k dets s"
      by (auto split: if_splits)
    from fire_no_stream [OF Cons.prems(1) k, of dets] s1
    have v: "videoStream s1 = None" and w: "pending_work s1 < pending_work s" by simp_all
    from Cons.IH [OF v nes r] w e show ?thesis by simp
  next
    case False
    from action_no_stream [OF Cons.prems(1) ne False d]
    have v: "videoStream s1 = None" and w: "pending_work s1 = pending_work s"
      by (simp_all add: pending_work_def)
    from Cons.IH [OF v nes r] w False show ?thesis by simp
  qed
qed

text \<open>
  Claim C7, as stated, fails in two ways on a page that recognizes, with the recognize
  cycle suspended in the detector. After \<^verbatim>\<open>stopCamera\<close> the suspended cycle resumes:
  it paints the box of the face on the canvas that the stop has cleared, rewrites the
  results and registers itself again, so a cycle body does execute and reschedule after
  the stop. And when the camera is started again before the registered callbacks are
  called, the recognize callback passes its liveness check and the old loop goes on: the
  page recognizes again, with the cycle suspended in the detector.
\<close>

theorem stop_in_flight_restart_counterexample:
  "loopMode recognizing_state = Recognizing
   \<and> tasks recognizing_state = [NextFrame Detect, AwaitDetections Recognize]
   \<and> map_option canvas (run [StopCamera, Turn 1 one_face] recognizing_state) =
       Some [DrawBox (Box 1 2 3 4) (MatchResult ''Alice'' (Some 0))]
   \<and> map_option tasks (run [StopCamera, Turn 1 one_face] recognizing_state) =
       Some [NextFrame Detect, NextFrame Recognize]
   \<and> map_option loopMode
        (run [StopCamera, Turn 1 one_face, StartCamera (Some (MediaStream [1])), Turn 1 []]
           recognizing_state) = Some Recognizing
   \<and> map_option tasks
        (run [StopCamera, Turn 1 one_face, StartCamera (Some (MediaStream [1])), Turn 1 []]
           recognizing_state) =
       Some [NextFrame Detect, AwaitDetections Detect, AwaitDetections Recognize]"
  by (simp add: recognizing_state_def live_state_def alice_def one_face_def recognizeFaces_def
        matchDimensions_def cycle_start_def stopCamera_def startCamera_def detectFaces_def
        fire_def recognize_resume_def loopMode_def recognizing_task_def findBestMatch_def
        candidates_def euclideanDistance_def Let_def)

text \<open>
  Claim C7, amended. \<^verbatim>\<open>stopCamera\<close> leaves the page idle, from any state. Each cycle
  checks liveness at its start only: while there is no stream, a cycle that starts
  returns at its check, so the state is untouched, nothing is drawn and nothing is
  registered, and a registered callback only leaves the pending list when it is called.
  A cycle that was suspended in the detector finishes its frame and is at most
  registered once more. Hence, as long as the camera is not started again, whatever
  other user actions arrive, in whatever order, and whatever the detector resolves to,
  the page stays idle and the pending cycles take at most two turns of the event loop
  each.
\<close>

theorem stop_ends_cycles:
  "loopMode (stopCamera s) = Idle
   \<and> (videoStream s = None \<longrightarrow> cycle_start l s = s)
   \<and> (videoStream s = None \<and> k < length (tasks s) \<and> tasks s ! k = NextFrame l \<longrightarrow>
        fire k dets s = s\<lparr> tasks := take k (tasks s) @ drop (Suc k) (tasks s) \<rparr>)
   \<and> (videoStream s = None \<and> k < length (tasks s) \<and> tasks s ! k = AwaitDetections l \<longrightarrow>
        tasks (fire k dets s) = take k (tasks s) @ drop (Suc k) (tasks s) @ [NextFrame l]
        \<or> tasks (fire k dets s) = take k (tasks s) @ drop (Suc k) (tasks s))
   \<and> (\<not> list_ex restarts es \<and> run es (stopCamera s) = Some s' \<longrightarrow>
        loopMode s' = Idle \<and> length (filter is_turn es) \<le> 2 * length (tasks s))"
proof -
  have v: "videoStream (stopCamera s) = None" by (rule videoStream_stopCamera)
  have "loopMode s' = Idle \<and> length (filter is_turn es) \<le> 2 * length (tasks s)"
    if "\<not> list_ex restarts es" "run es (stopCamera s) = Some s'"
  proof -
    from run_no_stream [OF v that] pending_work_bound [of "stopCamera s"]
    show ?thesis by (simp add: loopMode_def tasks_stopCamera)
  qed
  moreover have "fire k dets s = s\<lparr> tasks := take k (tasks s) @ drop (Suc k) (tasks s) \<rparr>"
    if "videoStream s = None" "k < length (tasks s)" "tasks s ! k = NextFrame l"
    using that by (simp add: fire_def cycle_start_def)
  moreover have "tasks (fire k dets s) =
          take k (tasks s) @ drop (Suc k) (tasks s) @ [NextFrame l]
        \<or> tasks (fire k dets s) = take k (tasks s) @ drop (Suc k) (tasks s)"
    if "k < length (tasks s)" "tasks s ! k = AwaitDetections l"
    using that
    by (cases l) (simp_all add: fire_def detect_resume_def recognize_resume_def Let_def)
  ultimately show ?thesis
    using v by (simp add: loopMode_def cycle_start_no_stream)
qed

theorem stop_ends_cycles_witness:
  "videoStream stopped_state = None
   \<and> tasks stopped_state = [NextFrame Detect, AwaitDetections Recognize]
   \<and> cycle_start Recognize stopped_state = stopped_state
   \<and> fire 0 [] stopped_state = stopped_state\<lparr> tasks := [AwaitDetections Recognize] \<rparr>
   \<and> tasks (fire 1 one_face stopped_state) = [NextFrame Detect, NextFrame Recognize]
   \<and> \<not> list_ex restarts after_stop
   \<and> map_option tasks (run after_stop (stopCamera stopped_state)) = Some []
   \<and> map_option loopMode (run after_stop (stopCamera stopped_state)) = Some Idle
   \<and> length (filter is_turn after_stop) \<le> 2 * length (tasks stopped_state)"
  using stop_ends_cycles [of stopped_state Detect 0 "[]" after_stop
      "the (run after_stop (stopCamera stopped_state))"]
    stop_ends_cycles [of stopped_state Recognize 1 one_face after_stop
      "the (run after_stop (stopCamera stopped_state))"]
  by (simp add: stopped_state_def after_stop_def recognizing_state_def live_state_def alice_def
        one_face_def recognizeFaces_def matchDimensions_def cycle_start_def stopCamera_def
        startCamera_def fire_def recognize_resume_def loopMode_def recognizing_task_def
        findBestMatch_def candidates_def euclideanDistance_def deleteFace_def
        updateFaceDescriptorsDisplay_def splice1_def Let_def)

section \<open>The distance is symmetric and zero on equal descriptors\<close>

lemma sum_squares_zip_commute:
  "(\<Sum>(x, y) \<leftarrow> zip a b. (x - y)\<^sup>2) = (\<Sum>(x, y) \<leftarrow> zip b a. ((x - y)\<^sup>2 :: real))"
proof (induction a arbitrary: b)
  case Nil
  then show ?case by simp
next
  case (Cons x a)
  then show ?case by (cases b) (simp_all add: power2_commute)
qed

lemma sum_squares_zip_same: "(\<Sum>(x, y) \<leftarrow> zip a a. ((x - y)\<^sup>2 :: real)) = 0"
  by (induction a) simp_all

lemma sum_squares_zip_nonneg: "0 \<le> (\<Sum>(x, y) \<leftarrow> zip a b. ((x - y)\<^sup>2 :: real))"
proof (induction a arbitrary: b)
  case Nil
  then show ?case by simp
next
  case (Cons x a)
  then show ?case by (cases b) simp_all
qed

text \<open>
  Claim C8. The distance of the matcher is the Euclidean one: it is not negative and
  its square is the sum of the squared differences of the components. It is symmetric,
  and the distance of a descriptor to itself is 0.
\<close>

theorem euclideanDistance_symmetric_identity:
  "euclideanDistance a b = euclideanDistance b a
   \<and> euclideanDistance a a = 0
   \<and> 0 \<le> euclideanDistance a b
   \<and> (euclideanDistance a b)\<^sup>2 = (\<Sum>(x, y) \<leftarrow> zip a b. (x - y)\<^sup>2)"
  using sum_squares_zip_commute [of a b] sum_squares_zip_nonneg [of a b]
  by (simp add: euclideanDistance_def sum_squares_zip_same)

section \<open>The recognize button follows the gallery\<close>

text \<open>
  Claim C9. After \<^verbatim>\<open>deleteFace\<close>, and after a \<^verbatim>\<open>captureFace\<close> that stores an entry,
  the recognize button is disabled exactly when the gallery is empty.
\<close>

theorem recognizerBtn_after_mutation:
  "recognizerBtn_disabled (deleteFace i s) = (length (faceDescriptors (deleteFace i s)) = 0)
   \<and> (faceName \<noteq> [] \<and> detections \<noteq> [] \<longrightarrow>
        recognizerBtn_disabled (captureFace (Some faceName) detections s) =
          (length (faceDescriptors (captureFace (Some faceName) detections s)) = 0))"
  by (simp add: deleteFace_def captureFace_def updateFaceDescriptorsDisplay_def Let_def)

theorem recognizerBtn_after_mutation_witness:
  "''D'' \<noteq> [] \<and> one_face \<noteq> []
   \<and> recognizerBtn_disabled (deleteFace 0 idle_state) = True
   \<and> faceDescriptors (deleteFace 0 idle_state) = []
   \<and> recognizerBtn_disabled (captureFace (Some ''D'') one_face (deleteFace 0 idle_state)) = False"
  using recognizerBtn_after_mutation [of 0 idle_state "''D''" one_face]
    recognizerBtn_after_mutation [of 0 "deleteFace 0 idle_state" "''D''" one_face]
  by (simp add: faceDescriptors_deleteFace splice1_def idle_state_def one_face_def
        captureFace_def updateFaceDescriptorsDisplay_def)

section \<open>Stop is idempotent\<close>

text \<open>
  Claim C10. With no stream active, \<^verbatim>\<open>stopCamera\<close> changes nothing at all: the
  gallery, the four buttons and the canvas are what they were. Hence stopping twice is
  the same as stopping once, from any state.
\<close>

theorem stopCamera_idempotent:
  "(videoStream s = None \<longrightarrow>
      stopCamera s = s
      \<and> faceDescriptors (stopCamera s) = faceDescriptors s
      \<and> startCameraBtn_disabled (stopCamera s) = startCameraBtn_disabled s
      \<and> stopCameraBtn_disabled (stopCamera s) = stopCameraBtn_disabled s
      \<and> captureFaceBtn_disabled (stopCamera s) = captureFaceBtn_disabled s
      \<and> recognizerBtn_disabled (stopCamera s) = recognizerBtn_disabled s
      \<and> canvas (stopCamera s) = canvas s)
   \<and> stopCamera (stopCamera s) = stopCamera s"
proof -
  have twice: "stopCamera (stopCamera s) = stopCamera s"
    by (rule stopCamera_no_stream) (rule videoStream_stopCamera)
  show ?thesis
    using twice by (simp add: stopCamera_no_stream)
qed

theorem stopCamera_idempotent_witness:
  "videoStream idle_state = None
   \<and> stopCamera idle_state = idle_state
   \<and> canvas (stopCamera idle_state) = [DrawDetection (Detection (Box 1 2 3 4) [0, 0])]
   \<and> recognizerBtn_disabled (stopCamera idle_state) = False
   \<and> stopCamera (stopCamera idle_state) = stopCamera idle_state"
  using stopCamera_idempotent [of idle_state]
  by (simp add: idle_state_def)

end
